theory Spec2Isabelle
  imports Main
begin

section \<open>The grammar rule \<open>let_declaration\<close> of \<open>src/grammar.js\<close>\<close>

text \<open>
  The source is one JavaScript function:
  \<^verbatim>\<open>
  let_declaration: function(tokens) {
    let expression = [tokens.shift()];
    do {
      token = tokens.shift();
      expression.push(token);
    } while (!["EOF", "\n"].includes(token));
    return { type: "let_declaration", name: "x", value: 5 };
  }
  \<close>
  It reads and writes two pieces of state that outlive the call: the array \<open>tokens\<close>
  the caller passes in, and the variable \<open>token\<close>, which is assigned without a
  declaration and is therefore a property of the global object (the file is a CommonJS
  module without a strict-mode directive).
\<close>

subsection \<open>Values, the state and the returned node\<close>

text \<open>
  An array element is any JavaScript value. The function only ever compares it with the
  two strings \<open>"EOF"\<close> and \<open>"\n"\<close>, so three kinds are kept apart: \<open>undefined\<close> (also what
  \<open>shift\<close> gives on an empty array), a primitive string, and any other value (a number,
  an object, ...), identified by a tag.
\<close>

datatype js_value = Undefined | Str string | Other nat

text \<open>
  The state: the contents of the caller's array, and the global variable \<open>token\<close>
  (\<open>None\<close> while the global object has no such property).
\<close>

record js_state =
  tokens :: "js_value list"
  token :: "js_value option"

text \<open>The object literal of the \<open>return\<close> statement, with its three properties.\<close>

record node =
  node_type :: string
  node_name :: string
  node_value :: int

subsection \<open>The array methods the function calls\<close>

text \<open>
  \<open>Array.prototype.shift\<close>: removes and returns the first element; on an empty array it
  returns \<open>undefined\<close> and leaves the array empty.
\<close>

fun shift :: "js_value list \<Rightarrow> js_value \<times> js_value list" where
  "shift [] = (Undefined, [])"
| "shift (x # xs) = (x, xs)"

text \<open>
  \<open>Array.prototype.includes\<close>: whether some element is the same value as the argument.
  On \<open>js_value\<close> the comparison is equality: a string equals a string with the same
  characters and nothing else. (The name carries a suffix because \<open>includes\<close> is a
  keyword of Isabelle.)
\<close>

definition includes_js :: "js_value list \<Rightarrow> js_value \<Rightarrow> bool" where
  "includes_js xs v = (v \<in> set xs)"

text \<open>The array literal \<open>["EOF", "\n"]\<close> of the loop condition.\<close>

definition terminators :: "js_value list" where
  "terminators = [Str ''EOF'', Str ''\<newline>'']"

subsection \<open>The loop and the function\<close>

text \<open>
  The \<open>do ... while\<close> loop, with the local array \<open>expression\<close> as an accumulator. The body
  runs before the condition is tested. Nothing in the loop tests whether the array is
  empty, so the loop need not end: the model is a partial function, and \<open>None\<close> is the
  call that does not return. The array \<open>expression\<close> is a list of any length here; what
  an engine does when the array can no longer grow is outside the model.
\<close>

partial_function (option) do_while ::
  "js_state \<Rightarrow> js_value list \<Rightarrow> (js_state \<times> js_value list) option" where
  "do_while s expression =
     (case shift (tokens s) of (t, ts) \<Rightarrow>
        let s' = s\<lparr>tokens := ts, token := Some t\<rparr>;
            expression' = expression @ [t]
        in if \<not> includes_js terminators t then do_while s' expression'
           else Some (s', expression'))"

declare do_while.simps [code]

text \<open>
  The function: the first \<open>shift\<close> fills \<open>expression\<close>, the loop runs, and the object
  literal is returned together with the state the call leaves behind.
\<close>

definition let_declaration :: "js_state \<Rightarrow> (node \<times> js_state) option" where
  "let_declaration s =
     (case shift (tokens s) of (h, ts) \<Rightarrow>
        (case do_while (s\<lparr>tokens := ts\<rparr>) [h] of
           None \<Rightarrow> None
         | Some (s', expression) \<Rightarrow>
             Some (\<lparr>node_type = ''let_declaration'', node_name = ''x'', node_value = 5\<rparr>, s')))"

section \<open>The loop\<close>

lemma includes_terminators_iff:
  "includes_js terminators v \<longleftrightarrow> v = Str ''EOF'' \<or> v = Str ''\<newline>''"
  by (auto simp: includes_js_def terminators_def)

lemma do_while_terminator:
  "includes_js terminators t \<Longrightarrow>
   do_while \<lparr>tokens = t # ts, token = g\<rparr> e =
     Some (\<lparr>tokens = ts, token = Some t\<rparr>, e @ [t])"
  by (subst do_while.simps) simp

lemma do_while_skip:
  "\<not> includes_js terminators t \<Longrightarrow>
   do_while \<lparr>tokens = t # ts, token = g\<rparr> e =
     do_while \<lparr>tokens = ts, token = Some t\<rparr> (e @ [t])"
  by (subst do_while.simps) simp

text \<open>On an empty array the loop goes round again, on an empty array.\<close>

lemma do_while_exhausted:
  "do_while \<lparr>tokens = [], token = g\<rparr> e =
     do_while \<lparr>tokens = [], token = Some Undefined\<rparr> (e @ [Undefined])"
  by (subst do_while.simps) (simp add: includes_terminators_iff)

text \<open>The loop runs through tokens that are no terminators and stops after the first one that is.\<close>

lemma do_while_body:
  "\<forall>b \<in> set body. \<not> includes_js terminators b \<Longrightarrow> includes_js terminators t \<Longrightarrow>
   do_while \<lparr>tokens = body @ t # rest, token = g\<rparr> e =
     Some (\<lparr>tokens = rest, token = Some t\<rparr>, e @ body @ [t])"
proof (induction body arbitrary: g e)
  case Nil
  then show ?case by (simp add: do_while_terminator)
next
  case (Cons b body)
  then show ?case by (simp add: do_while_skip)
qed

text \<open>
  Conversely, a loop that returns has found a terminator in the array: by the induction
  rule of the partial function.
\<close>

lemma do_while_SomeD:
  assumes "do_while s e = Some r"
  shows "\<exists>body t rest. tokens s = body @ t # rest \<and>
            (\<forall>b \<in> set body. \<not> includes_js terminators b) \<and> includes_js terminators t \<and>
            r = (\<lparr>tokens = rest, token = Some t\<rparr>, e @ body @ [t])"
proof (rule do_while.raw_induct [OF _ assms], goal_cases)
  case (1 loop s e r)
  show ?case
  proof (cases "tokens s")
    case Nil
    with 1(2) have "loop (s\<lparr>tokens := [], token := Some Undefined\<rparr>) (e @ [Undefined]) = Some r"
      by (simp add: includes_terminators_iff)
    from 1(1)[OF this] show ?thesis by simp
  next
    case (Cons t ts)
    show ?thesis
    proof (cases "includes_js terminators t")
      case True
      with 1(2) Cons have "r = (s\<lparr>tokens := ts, token := Some t\<rparr>, e @ [t])" by simp
      with True Cons show ?thesis
        by (intro exI[of _ "[]"] exI[of _ t] exI[of _ ts]) simp
    next
      case False
      with 1(2) Cons have "loop (s\<lparr>tokens := ts, token := Some t\<rparr>) (e @ [t]) = Some r"
        by simp
      from 1(1)[OF this] obtain body t' rest where
        "ts = body @ t' # rest" "\<forall>b \<in> set body. \<not> includes_js terminators b"
        "includes_js terminators t'"
        "r = (\<lparr>tokens = rest, token = Some t'\<rparr>, (e @ [t]) @ body @ [t'])"
        by auto
      with False Cons show ?thesis
        by (intro exI[of _ "t # body"] exI[of _ t'] exI[of _ rest]) simp
    qed
  qed
qed

lemma do_while_diverges:
  assumes "\<forall>t \<in> set (tokens s). \<not> includes_js terminators t"
  shows "do_while s e = None"
proof (cases "do_while s e")
  case None
  then show ?thesis .
next
  case (Some r)
  from do_while_SomeD[OF this] assms show ?thesis by auto
qed

section \<open>The function\<close>

lemma let_declaration_returns:
  assumes "\<forall>b \<in> set body. \<not> includes_js terminators b" and "includes_js terminators t"
  shows "let_declaration \<lparr>tokens = h # body @ t # rest, token = g\<rparr> =
    Some (\<lparr>node_type = ''let_declaration'', node_name = ''x'', node_value = 5\<rparr>,
          \<lparr>tokens = rest, token = Some t\<rparr>)"
  using assms by (simp add: let_declaration_def do_while_body)

lemma let_declaration_SomeD:
  assumes "let_declaration s = Some (n, s')"
  shows "\<exists>h body t. tokens s = h # body @ t # tokens s' \<and>
            (\<forall>b \<in> set body. \<not> includes_js terminators b) \<and> includes_js terminators t \<and>
            token s' = Some t \<and>
            n = \<lparr>node_type = ''let_declaration'', node_name = ''x'', node_value = 5\<rparr>"
proof (cases "tokens s")
  case Nil
  with assms obtain r where "do_while (s\<lparr>tokens := []\<rparr>) [Undefined] = Some r"
    by (auto simp: let_declaration_def split: option.splits)
  from do_while_SomeD[OF this] show ?thesis by simp
next
  case (Cons h ts)
  with assms obtain e where r: "do_while (s\<lparr>tokens := ts\<rparr>) [h] = Some (s', e)"
    and n: "n = \<lparr>node_type = ''let_declaration'', node_name = ''x'', node_value = 5\<rparr>"
    by (auto simp: let_declaration_def split: option.splits)
  from do_while_SomeD[OF r] obtain body t rest where
    "ts = body @ t # rest" "\<forall>b \<in> set body. \<not> includes_js terminators b"
    "includes_js terminators t" "s' = \<lparr>tokens = rest, token = Some t\<rparr>"
    by auto
  with Cons n show ?thesis
    by (intro exI[of _ h] exI[of _ body] exI[of _ t]) simp
qed

lemma let_declaration_diverges:
  assumes "\<forall>t \<in> set (tl (tokens s)). \<not> includes_js terminators t"
  shows "let_declaration s = None"
proof (cases "tokens s")
  case Nil
  then show ?thesis by (simp add: let_declaration_def do_while_diverges)
next
  case (Cons h ts)
  with assms show ?thesis by (simp add: let_declaration_def do_while_diverges)
qed

text \<open>The call returns exactly when a terminator stands somewhere after the first token.\<close>

lemma let_declaration_returns_iff:
  "(\<exists>r. let_declaration s = Some r) \<longleftrightarrow> (\<exists>t \<in> set (tl (tokens s)). includes_js terminators t)"
proof
  assume "\<exists>r. let_declaration s = Some r"
  then obtain n s' where "let_declaration s = Some (n, s')" by auto
  from let_declaration_SomeD[OF this] show "\<exists>t \<in> set (tl (tokens s)). includes_js terminators t"
    by auto
next
  assume "\<exists>t \<in> set (tl (tokens s)). includes_js terminators t"
  from split_list_first_prop[OF this] obtain body t rest where
    tl: "tl (tokens s) = body @ t # rest" and t: "includes_js terminators t"
    and body: "\<forall>b \<in> set body. \<not> includes_js terminators b"
    by blast
  from tl obtain h where "tokens s = h # body @ t # rest"
    by (cases "tokens s") auto
  then have "s = \<lparr>tokens = h # body @ t # rest, token = token s\<rparr>" by simp
  with let_declaration_returns[OF body t, of h rest "token s"]
  show "\<exists>r. let_declaration s = Some r" by auto
qed

text \<open>
  The global \<open>token\<close> is assigned before it is read, so its value before the call has no
  influence on the call.
\<close>

lemma do_while_global_overwritten:
  "do_while \<lparr>tokens = ts, token = g\<rparr> e = do_while \<lparr>tokens = ts, token = g'\<rparr> e"
proof -
  let ?once = "case shift ts of (t, ts') \<Rightarrow>
         if \<not> includes_js terminators t
         then do_while \<lparr>tokens = ts', token = Some t\<rparr> (e @ [t])
         else Some (\<lparr>tokens = ts', token = Some t\<rparr>, e @ [t])"
  have "do_while \<lparr>tokens = ts, token = g\<rparr> e = ?once" for g
    by (subst do_while.simps) (simp split: prod.splits)
  from this[of g] this[of g'] show ?thesis by simp
qed

text \<open>The first token is stored in \<open>expression\<close> and never looked at again.\<close>

lemma let_declaration_head_irrelevant:
  "let_declaration \<lparr>tokens = h # ts, token = g\<rparr> = let_declaration \<lparr>tokens = h' # ts, token = g\<rparr>"
proof (cases "\<exists>t \<in> set ts. includes_js terminators t")
  case True
  from split_list_first_prop[OF this] obtain body t rest where
    "ts = body @ t # rest" "includes_js terminators t"
    "\<forall>b \<in> set body. \<not> includes_js terminators b"
    by blast
  then show ?thesis by (simp add: let_declaration_returns)
next
  case False
  then show ?thesis by (simp add: let_declaration_diverges)
qed

section \<open>Properties the function has\<close>

text \<open>
  C1. For every array of the form \<open>[head, t_a, ..., tn, terminator, ...rest]\<close> (\<open>n \<ge> 0\<close>) where
  none of \<open>t_a..tn\<close> is \<open>"EOF"\<close> or \<open>"\n"\<close> and \<open>terminator\<close> is one of them, the call returns,
  and the array it leaves is \<open>rest\<close>: exactly the \<open>n + 2\<close> tokens from \<open>head\<close> to
  \<open>terminator\<close> have been removed. They are the tokens the loop has collected in
  \<open>expression\<close>.
\<close>

theorem let_declaration_consumes_one_declaration:
  assumes "\<forall>b \<in> set body. \<not> includes_js terminators b"
    and "includes_js terminators terminator"
  shows "let_declaration \<lparr>tokens = head # body @ terminator # rest, token = g\<rparr> =
           Some (\<lparr>node_type = ''let_declaration'', node_name = ''x'', node_value = 5\<rparr>, \<lparr>tokens = rest, token = Some terminator\<rparr>)
         \<and> do_while \<lparr>tokens = body @ terminator # rest, token = g\<rparr> [head] =
           Some (\<lparr>tokens = rest, token = Some terminator\<rparr>, head # body @ [terminator])
         \<and> length (head # body @ [terminator]) = length body + 2"
  using assms by (simp add: let_declaration_returns do_while_body)

theorem let_declaration_consumes_one_declaration_witness:
  "let_declaration
     \<lparr>tokens = [Str ''let'', Str ''IDENT:x'', Str ''='', Str ''5'', Str ''\<newline>'',
                Str ''let'', Str ''IDENT:y''], token = None\<rparr> =
   Some (\<lparr>node_type = ''let_declaration'', node_name = ''x'', node_value = 5\<rparr>, \<lparr>tokens = [Str ''let'', Str ''IDENT:y''], token = Some (Str ''\<newline>'')\<rparr>)"
  using let_declaration_consumes_one_declaration
    [where body = "[Str ''IDENT:x'', Str ''='', Str ''5'']" and terminator = "Str ''\<newline>''"
       and head = "Str ''let''" and rest = "[Str ''let'', Str ''IDENT:y'']" and g = None]
  by (simp add: includes_terminators_iff)

text \<open>
  C3. Whenever the call returns, the node it returns is the record
  \<open>{type: "let_declaration", name: "x", value: 5}\<close>, whatever the tokens were; in
  particular its \<open>type\<close> is the string \<open>"let_declaration"\<close>.
\<close>

theorem let_declaration_node_fixed:
  assumes "let_declaration s = Some (n, s')"
  shows "n = \<lparr>node_type = ''let_declaration'', node_name = ''x'', node_value = 5\<rparr>
         \<and> node_type n = ''let_declaration''"
  using let_declaration_SomeD[OF assms] by auto

theorem let_declaration_node_fixed_witness:
  "\<exists>n s'. let_declaration \<lparr>tokens = [Other 7, Undefined, Str ''EOF''], token = None\<rparr> = Some (n, s')
     \<and> n = \<lparr>node_type = ''let_declaration'', node_name = ''x'', node_value = 5\<rparr>
     \<and> node_type n = ''let_declaration''"
proof -
  have r: "let_declaration \<lparr>tokens = [Other 7, Undefined, Str ''EOF''], token = None\<rparr> =
      Some (\<lparr>node_type = ''let_declaration'', node_name = ''x'', node_value = 5\<rparr>, \<lparr>tokens = [], token = Some (Str ''EOF'')\<rparr>)"
    using let_declaration_returns[where body = "[Undefined]" and t = "Str ''EOF''" and rest = "[]"]
    by (simp add: includes_terminators_iff)
  from let_declaration_node_fixed[OF r] r show ?thesis by simp
qed

text \<open>
  C7. On \<open>["let", "IDENT:x", "=", "5", "EOF"]\<close> the call removes all five tokens, returns
  \<open>{type: "let_declaration", name: "x", value: 5}\<close> and leaves the array empty; on
  \<open>["let", "\n", "next1"]\<close> it removes the first two tokens and leaves \<open>["next1"]\<close>.
\<close>

theorem let_declaration_scenarios:
  "let_declaration
     \<lparr>tokens = [Str ''let'', Str ''IDENT:x'', Str ''='', Str ''5'', Str ''EOF''], token = g\<rparr> =
   Some (\<lparr>node_type = ''let_declaration'', node_name = ''x'', node_value = 5\<rparr>, \<lparr>tokens = [], token = Some (Str ''EOF'')\<rparr>)
   \<and> let_declaration \<lparr>tokens = [Str ''let'', Str ''\<newline>'', Str ''next1''], token = g\<rparr> =
   Some (\<lparr>node_type = ''let_declaration'', node_name = ''x'', node_value = 5\<rparr>, \<lparr>tokens = [Str ''next1''], token = Some (Str ''\<newline>'')\<rparr>)"
  using let_declaration_returns
    [where body = "[Str ''IDENT:x'', Str ''='', Str ''5'']" and t = "Str ''EOF''"
       and h = "Str ''let''" and rest = "[]" and g = g]
    let_declaration_returns
    [where body = "[]" and t = "Str ''\<newline>''" and h = "Str ''let''"
       and rest = "[Str ''next1'']" and g = g]
  by (simp add: includes_terminators_iff)

text \<open>
  C5. Whenever the call returns, at least two tokens have been removed from the array,
  the last of them a terminator; and on \<open>[head, terminator]\<close> the call returns and has
  removed exactly these two.
\<close>

theorem let_declaration_consumes_at_least_two:
  "(let_declaration s = Some (n, s') \<longrightarrow>
      (\<exists>consumed. tokens s = consumed @ tokens s' \<and> 2 \<le> length consumed
         \<and> includes_js terminators (last consumed)))
   \<and> (includes_js terminators t \<longrightarrow>
      let_declaration \<lparr>tokens = [h, t], token = g\<rparr> =
        Some (\<lparr>node_type = ''let_declaration'', node_name = ''x'', node_value = 5\<rparr>, \<lparr>tokens = [], token = Some t\<rparr>))"
proof (intro conjI impI)
  assume "let_declaration s = Some (n, s')"
  from let_declaration_SomeD[OF this] obtain h body t where
    "tokens s = h # body @ t # tokens s'" "includes_js terminators t"
    by blast
  then show "\<exists>consumed. tokens s = consumed @ tokens s' \<and> 2 \<le> length consumed
      \<and> includes_js terminators (last consumed)"
    by (intro exI[of _ "h # body @ [t]"]) simp
next
  assume "includes_js terminators t"
  then show "let_declaration \<lparr>tokens = [h, t], token = g\<rparr> =
      Some (\<lparr>node_type = ''let_declaration'', node_name = ''x'', node_value = 5\<rparr>, \<lparr>tokens = [], token = Some t\<rparr>)"
    using let_declaration_returns[where body = "[]" and t = t and h = h and rest = "[]" and g = g]
    by simp
qed

theorem let_declaration_consumes_at_least_two_witness:
  "(\<exists>consumed. [Str ''let'', Str ''IDENT:x'', Str ''EOF'', Str ''next1''] = consumed @ [Str ''next1'']
      \<and> 2 \<le> length consumed \<and> includes_js terminators (last consumed))
   \<and> let_declaration \<lparr>tokens = [Str ''let'', Str ''\<newline>''], token = None\<rparr> =
        Some (\<lparr>node_type = ''let_declaration'', node_name = ''x'', node_value = 5\<rparr>, \<lparr>tokens = [], token = Some (Str ''\<newline>'')\<rparr>)"
proof -
  have r: "let_declaration
      \<lparr>tokens = [Str ''let'', Str ''IDENT:x'', Str ''EOF'', Str ''next1''], token = None\<rparr> =
      Some (\<lparr>node_type = ''let_declaration'', node_name = ''x'', node_value = 5\<rparr>, \<lparr>tokens = [Str ''next1''], token = Some (Str ''EOF'')\<rparr>)"
    using let_declaration_returns
      [where body = "[Str ''IDENT:x'']" and t = "Str ''EOF''" and rest = "[Str ''next1'']"]
    by (simp add: includes_terminators_iff)
  have t: "includes_js terminators (Str ''\<newline>'')"
    by (simp add: includes_terminators_iff)
  from let_declaration_consumes_at_least_two
    [of "\<lparr>tokens = [Str ''let'', Str ''IDENT:x'', Str ''EOF'', Str ''next1''], token = None\<rparr>"
        "\<lparr>node_type = ''let_declaration'', node_name = ''x'', node_value = 5\<rparr>"
        "\<lparr>tokens = [Str ''next1''], token = Some (Str ''EOF'')\<rparr>"
        "Str ''\<newline>''" "Str ''let''" None]
    r t
  show ?thesis by simp
qed

text \<open>
  C6. On an array that starts with two declarations, each a head, a body without
  terminators and a terminator, followed by any rest, two calls in a row remove one
  declaration each, in order: the first call leaves the second declaration and the rest,
  and the second call, on the state the first one left, leaves the rest.
\<close>

theorem let_declaration_twice:
  assumes "\<forall>b \<in> set body_a. \<not> includes_js terminators b" and "includes_js terminators t_a"
    and "\<forall>b \<in> set body_b. \<not> includes_js terminators b" and "includes_js terminators t_b"
  shows "let_declaration
           \<lparr>tokens = (h_a # body_a @ [t_a]) @ (h_b # body_b @ [t_b]) @ rest, token = g\<rparr> =
           Some (\<lparr>node_type = ''let_declaration'', node_name = ''x'', node_value = 5\<rparr>, \<lparr>tokens = (h_b # body_b @ [t_b]) @ rest, token = Some t_a\<rparr>)
         \<and> let_declaration \<lparr>tokens = (h_b # body_b @ [t_b]) @ rest, token = Some t_a\<rparr> =
           Some (\<lparr>node_type = ''let_declaration'', node_name = ''x'', node_value = 5\<rparr>, \<lparr>tokens = rest, token = Some t_b\<rparr>)"
  using assms by (simp add: let_declaration_returns)

theorem let_declaration_twice_witness:
  "let_declaration
     \<lparr>tokens = [Str ''let'', Str ''IDENT:x'', Str ''\<newline>'', Str ''let'', Str ''IDENT:y'',
                Str ''='', Str ''EOF'', Other 3], token = None\<rparr> =
     Some (\<lparr>node_type = ''let_declaration'', node_name = ''x'', node_value = 5\<rparr>,
           \<lparr>tokens = [Str ''let'', Str ''IDENT:y'', Str ''='', Str ''EOF'', Other 3],
              token = Some (Str ''\<newline>'')\<rparr>)
   \<and> let_declaration
     \<lparr>tokens = [Str ''let'', Str ''IDENT:y'', Str ''='', Str ''EOF'', Other 3],
        token = Some (Str ''\<newline>'')\<rparr> =
     Some (\<lparr>node_type = ''let_declaration'', node_name = ''x'', node_value = 5\<rparr>, \<lparr>tokens = [Other 3], token = Some (Str ''EOF'')\<rparr>)"
  using let_declaration_twice
    [where body_a = "[Str ''IDENT:x'']" and t_a = "Str ''\<newline>''" and h_a = "Str ''let''"
       and body_b = "[Str ''IDENT:y'', Str ''='']" and t_b = "Str ''EOF''" and h_b = "Str ''let''"
       and rest = "[Other 3]" and g = None]
  by (simp add: includes_terminators_iff)

text \<open>
  C9. Whenever the call returns, the global \<open>token\<close> holds the last token removed from
  the array, which is the terminator that ended the loop; and the value the global had
  before the call is overwritten without being read: the call does the same for every
  prior value. Such calls exist and do write the global: on every array with a
  terminator after the head the call returns with the global set to that terminator,
  whatever it was before; after a call on \<open>["let", "EOF"]\<close> with the global \<open>token\<close>
  holding some other value, it holds \<open>"EOF"\<close>.
\<close>

theorem let_declaration_sets_global_token:
  "(let_declaration s = Some (n, s') \<longrightarrow>
      (\<exists>consumed. tokens s = consumed @ tokens s' \<and> consumed \<noteq> []
         \<and> token s' = Some (last consumed) \<and> includes_js terminators (last consumed)))
   \<and> let_declaration (s\<lparr>token := g\<rparr>) = let_declaration s
   \<and> ((\<forall>b \<in> set body. \<not> includes_js terminators b) \<and> includes_js terminators t \<longrightarrow>
      let_declaration \<lparr>tokens = h # body @ t # rest, token = prior\<rparr> =
        Some (\<lparr>node_type = ''let_declaration'', node_name = ''x'', node_value = 5\<rparr>, \<lparr>tokens = rest, token = Some t\<rparr>))
   \<and> let_declaration \<lparr>tokens = [Str ''let'', Str ''EOF''], token = Some (Other 1)\<rparr> =
        Some (\<lparr>node_type = ''let_declaration'', node_name = ''x'', node_value = 5\<rparr>, \<lparr>tokens = [], token = Some (Str ''EOF'')\<rparr>)"
proof (intro conjI impI)
  assume "let_declaration s = Some (n, s')"
  from let_declaration_SomeD[OF this] obtain h body t where
    "tokens s = h # body @ t # tokens s'" "includes_js terminators t" "token s' = Some t"
    by blast
  then show "\<exists>consumed. tokens s = consumed @ tokens s' \<and> consumed \<noteq> []
      \<and> token s' = Some (last consumed) \<and> includes_js terminators (last consumed)"
    by (intro exI[of _ "h # body @ [t]"]) simp
next
  show "let_declaration (s\<lparr>token := g\<rparr>) = let_declaration s"
    using do_while_global_overwritten[of _ g _ "token s"]
    by (cases s) (simp add: let_declaration_def split: prod.splits)
next
  assume "(\<forall>b \<in> set body. \<not> includes_js terminators b) \<and> includes_js terminators t"
  then show "let_declaration \<lparr>tokens = h # body @ t # rest, token = prior\<rparr> =
      Some (\<lparr>node_type = ''let_declaration'', node_name = ''x'', node_value = 5\<rparr>, \<lparr>tokens = rest, token = Some t\<rparr>)"
    by (simp add: let_declaration_returns)
next
  show "let_declaration \<lparr>tokens = [Str ''let'', Str ''EOF''], token = Some (Other 1)\<rparr> =
      Some (\<lparr>node_type = ''let_declaration'', node_name = ''x'', node_value = 5\<rparr>, \<lparr>tokens = [], token = Some (Str ''EOF'')\<rparr>)"
    using let_declaration_returns
      [where body = "[]" and t = "Str ''EOF''" and h = "Str ''let''" and rest = "[]"
         and g = "Some (Other 1)"]
    by (simp add: includes_terminators_iff)
qed

theorem let_declaration_sets_global_token_witness:
  "let_declaration
     \<lparr>tokens = [Str ''let'', Str ''5'', Str ''EOF'', Str ''next1''], token = Some (Other 1)\<rparr> =
     Some (\<lparr>node_type = ''let_declaration'', node_name = ''x'', node_value = 5\<rparr>, \<lparr>tokens = [Str ''next1''], token = Some (Str ''EOF'')\<rparr>)
   \<and> (\<exists>consumed. [Str ''let'', Str ''5'', Str ''EOF'', Str ''next1''] = consumed @ [Str ''next1'']
      \<and> consumed \<noteq> [] \<and> Some (Str ''EOF'') = Some (last consumed)
      \<and> includes_js terminators (last consumed))
   \<and> let_declaration
        \<lparr>tokens = [Str ''let'', Str ''5'', Str ''EOF'', Str ''next1''], token = None\<rparr> =
      let_declaration
        \<lparr>tokens = [Str ''let'', Str ''5'', Str ''EOF'', Str ''next1''], token = Some (Other 1)\<rparr>"
proof -
  note inst = let_declaration_sets_global_token
    [where s = "\<lparr>tokens = [Str ''let'', Str ''5'', Str ''EOF'', Str ''next1''],
                   token = Some (Other 1)\<rparr>"
       and n = "\<lparr>node_type = ''let_declaration'', node_name = ''x'', node_value = 5\<rparr>"
       and s' = "\<lparr>tokens = [Str ''next1''], token = Some (Str ''EOF'')\<rparr>"
       and g = None
       and body = "[Str ''5'']" and t = "Str ''EOF''" and h = "Str ''let''"
       and rest = "[Str ''next1'']" and prior = "Some (Other 1)"]
  have pre: "(\<forall>b \<in> set [Str ''5'']. \<not> includes_js terminators b)
      \<and> includes_js terminators (Str ''EOF'')"
    by (simp add: includes_terminators_iff)
  from inst pre have "let_declaration
      \<lparr>tokens = Str ''let'' # [Str ''5''] @ Str ''EOF'' # [Str ''next1''], token = Some (Other 1)\<rparr> =
      Some (\<lparr>node_type = ''let_declaration'', node_name = ''x'', node_value = 5\<rparr>, \<lparr>tokens = [Str ''next1''], token = Some (Str ''EOF'')\<rparr>)"
    by blast
  then have r: "let_declaration
      \<lparr>tokens = [Str ''let'', Str ''5'', Str ''EOF'', Str ''next1''], token = Some (Other 1)\<rparr> =
      Some (\<lparr>node_type = ''let_declaration'', node_name = ''x'', node_value = 5\<rparr>, \<lparr>tokens = [Str ''next1''], token = Some (Str ''EOF'')\<rparr>)"
    by simp
  from inst r have c: "\<exists>consumed.
      tokens \<lparr>tokens = [Str ''let'', Str ''5'', Str ''EOF'', Str ''next1''],
               token = Some (Other 1)\<rparr> =
        consumed @ tokens \<lparr>tokens = [Str ''next1''], token = Some (Str ''EOF'')\<rparr>
      \<and> consumed \<noteq> []
      \<and> token \<lparr>tokens = [Str ''next1''], token = Some (Str ''EOF'')\<rparr> = Some (last consumed)
      \<and> includes_js terminators (last consumed)"
    by blast
  from inst have o: "let_declaration
      (\<lparr>tokens = [Str ''let'', Str ''5'', Str ''EOF'', Str ''next1''],
         token = Some (Other 1)\<rparr>\<lparr>token := None\<rparr>) =
      let_declaration
        \<lparr>tokens = [Str ''let'', Str ''5'', Str ''EOF'', Str ''next1''], token = Some (Other 1)\<rparr>"
    by blast
  from r c o show ?thesis by simp
qed

text \<open>
  C10. The first token is removed without being compared with the terminators: the call
  does the same whatever the first token is, and when the first token is itself
  \<open>"EOF"\<close> or \<open>"\n"\<close> the call still goes on to the next terminator and removes everything
  up to it. On \<open>["\n", "EOF"]\<close> it removes both tokens and returns.
\<close>

theorem let_declaration_head_not_tested:
  "let_declaration \<lparr>tokens = h # ts, token = g\<rparr> = let_declaration \<lparr>tokens = h' # ts, token = g\<rparr>
   \<and> (includes_js terminators h \<and> (\<forall>b \<in> set body. \<not> includes_js terminators b)
        \<and> includes_js terminators t \<longrightarrow>
      let_declaration \<lparr>tokens = h # body @ t # rest, token = g\<rparr> =
        Some (\<lparr>node_type = ''let_declaration'', node_name = ''x'', node_value = 5\<rparr>, \<lparr>tokens = rest, token = Some t\<rparr>))
   \<and> let_declaration \<lparr>tokens = [Str ''\<newline>'', Str ''EOF''], token = g\<rparr> =
        Some (\<lparr>node_type = ''let_declaration'', node_name = ''x'', node_value = 5\<rparr>, \<lparr>tokens = [], token = Some (Str ''EOF'')\<rparr>)"
proof (intro conjI impI)
  show "let_declaration \<lparr>tokens = h # ts, token = g\<rparr> =
      let_declaration \<lparr>tokens = h' # ts, token = g\<rparr>"
    by (rule let_declaration_head_irrelevant)
next
  assume "includes_js terminators h \<and> (\<forall>b \<in> set body. \<not> includes_js terminators b)
      \<and> includes_js terminators t"
  then show "let_declaration \<lparr>tokens = h # body @ t # rest, token = g\<rparr> =
      Some (\<lparr>node_type = ''let_declaration'', node_name = ''x'', node_value = 5\<rparr>, \<lparr>tokens = rest, token = Some t\<rparr>)"
    by (simp add: let_declaration_returns)
next
  show "let_declaration \<lparr>tokens = [Str ''\<newline>'', Str ''EOF''], token = g\<rparr> =
      Some (\<lparr>node_type = ''let_declaration'', node_name = ''x'', node_value = 5\<rparr>, \<lparr>tokens = [], token = Some (Str ''EOF'')\<rparr>)"
    using let_declaration_returns
      [where body = "[]" and t = "Str ''EOF''" and h = "Str ''\<newline>''" and rest = "[]" and g = g]
    by (simp add: includes_terminators_iff)
qed

theorem let_declaration_head_not_tested_witness:
  "let_declaration \<lparr>tokens = [Str ''EOF'', Str ''let'', Str ''\<newline>'', Str ''next1''], token = None\<rparr> =
     let_declaration \<lparr>tokens = [Str ''let'', Str ''let'', Str ''\<newline>'', Str ''next1''], token = None\<rparr>
   \<and> let_declaration \<lparr>tokens = [Str ''EOF'', Str ''let'', Str ''\<newline>'', Str ''next1''], token = None\<rparr> =
     Some (\<lparr>node_type = ''let_declaration'', node_name = ''x'', node_value = 5\<rparr>, \<lparr>tokens = [Str ''next1''], token = Some (Str ''\<newline>'')\<rparr>)"
proof -
  note inst = let_declaration_head_not_tested
    [where h = "Str ''EOF''" and h' = "Str ''let''"
       and ts = "[Str ''let'', Str ''\<newline>'', Str ''next1'']"
       and body = "[Str ''let'']" and t = "Str ''\<newline>''" and rest = "[Str ''next1'']"
       and g = None]
  have pre: "includes_js terminators (Str ''EOF'')
      \<and> (\<forall>b \<in> set [Str ''let'']. \<not> includes_js terminators b)
      \<and> includes_js terminators (Str ''\<newline>'')"
    by (simp add: includes_terminators_iff)
  from inst have same: "let_declaration
      \<lparr>tokens = [Str ''EOF'', Str ''let'', Str ''\<newline>'', Str ''next1''], token = None\<rparr> =
      let_declaration
      \<lparr>tokens = [Str ''let'', Str ''let'', Str ''\<newline>'', Str ''next1''], token = None\<rparr>"
    by (rule conjunct1)
  from inst pre have "let_declaration
      \<lparr>tokens = Str ''EOF'' # [Str ''let''] @ Str ''\<newline>'' # [Str ''next1''], token = None\<rparr> =
      Some (\<lparr>node_type = ''let_declaration'', node_name = ''x'', node_value = 5\<rparr>, \<lparr>tokens = [Str ''next1''], token = Some (Str ''\<newline>'')\<rparr>)"
    by blast
  then have "let_declaration
      \<lparr>tokens = [Str ''EOF'', Str ''let'', Str ''\<newline>'', Str ''next1''], token = None\<rparr> =
      Some (\<lparr>node_type = ''let_declaration'', node_name = ''x'', node_value = 5\<rparr>, \<lparr>tokens = [Str ''next1''], token = Some (Str ''\<newline>'')\<rparr>)"
    by simp
  with same show ?thesis by (rule conjI)
qed

section \<open>Where the function departs from the specification\<close>

text \<open>
  C2. The specification asks that a call on an array with no terminator after the head
  fails with \<open>StreamExhausted\<close> and does not loop. The function has no such failure and
  no test for an empty array: on \<open>["let", "IDENT:x", "=", "5"]\<close> the loop removes the
  three remaining tokens and then goes round on the empty array, where \<open>shift\<close> gives
  \<open>undefined\<close> every time, and the call does not return.
\<close>

theorem let_declaration_no_terminator_example:
  "let_declaration \<lparr>tokens = [Str ''let'', Str ''IDENT:x'', Str ''='', Str ''5''], token = None\<rparr>
     = None"
  by (simp add: let_declaration_diverges includes_terminators_iff)

text \<open>
  C4. The specification asks that the array is the only state the call changes. The
  loop assigns to \<open>token\<close>, which no \<open>let\<close> declares (unlike \<open>expression\<close>), so the
  assignment writes a global: after a call on \<open>["let", "EOF"]\<close> with no global \<open>token\<close>
  before, the global \<open>token\<close> is \<open>"EOF"\<close>.
\<close>

theorem let_declaration_writes_global_example:
  "let_declaration \<lparr>tokens = [Str ''let'', Str ''EOF''], token = None\<rparr> =
     Some (\<lparr>node_type = ''let_declaration'', node_name = ''x'', node_value = 5\<rparr>, \<lparr>tokens = [], token = Some (Str ''EOF'')\<rparr>)"
  using let_declaration_returns
    [where body = "[]" and t = "Str ''EOF''" and h = "Str ''let''" and rest = "[]" and g = None]
  by (simp add: includes_terminators_iff)

text \<open>
  C8. The call returns exactly when a terminator stands somewhere after the first token.
  So it does return on every array that has one, as the specification asks; but on an
  array that has none it loops without end, which the specification rules out: on
  \<open>["let"]\<close> the call does not return.
\<close>

theorem let_declaration_returns_exactly_when_terminated:
  "((\<exists>r. let_declaration s = Some r) \<longleftrightarrow>
      (\<exists>t \<in> set (tl (tokens s)). includes_js terminators t))
   \<and> let_declaration \<lparr>tokens = [Str ''let''], token = None\<rparr> = None"
proof (rule conjI)
  show "(\<exists>r. let_declaration s = Some r) \<longleftrightarrow>
      (\<exists>t \<in> set (tl (tokens s)). includes_js terminators t)"
    by (rule let_declaration_returns_iff)
next
  show "let_declaration \<lparr>tokens = [Str ''let''], token = None\<rparr> = None"
    by (simp add: let_declaration_diverges)
qed

end
